theory Spec2Isabelle
  imports Main "HOL-Library.Word"
begin

section \<open>Strings and errors\<close>

text \<open>
  A JavaScript string is a sequence of UTF-16 code units and \<^verbatim>\<open>s.length\<close> counts
  code units, so a string is a list of 16-bit words and its length is the list's length.
\<close>

type_synonym jsstring = "16 word list"

text \<open>
  What the program can throw: \<open>TypeError\<close> for a property read on \<^verbatim>\<open>undefined\<close>,
  \<open>IllegalLine\<close> for \<^verbatim>\<open>document.lineAt\<close> outside \<open>[0, lineCount)\<close>,
  \<open>IllegalArgument\<close> for a negative line or character given to a position, and
  \<open>FinderRejected\<close> for a rejected promise of the name finder.
\<close>

datatype js_error = TypeError | IllegalLine | IllegalArgument | FinderRejected

section \<open>The editor collaborator: positions, ranges, documents\<close>

text \<open>
  Modelled from the spec: \<open>Position\<close>, \<open>Range\<close>, \<open>TextDocument\<close> and
  \<open>TextEditor\<close> are imported from the editor's API (\<^verbatim>\<open>import { TextEditor, Selection,
  TextDocument, Range } from 'vscode'\<close>); their code is not part of the sources. The
  spec gives a position as a zero-based (line, character) pair, a range as a (start, end)
  pair with the invariant start \<open>\<le>\<close> end in document order, and a document as line
  addressing over \<open>[0, lineCount)\<close> with the end-of-line character offset of a line and
  substring retrieval for a range. The constructor of a range keeps the invariant the
  way the editor's API documents it: when the first position is not before the second,
  the two are swapped.
\<close>

record Position =
  line :: nat
  character :: nat

definition isBefore :: "Position \<Rightarrow> Position \<Rightarrow> bool" where
  "isBefore p q = (line p < line q \<or> (line p = line q \<and> character p < character q))"

definition isBeforeOrEqual :: "Position \<Rightarrow> Position \<Rightarrow> bool" where
  "isBeforeOrEqual p q = (line p < line q \<or> (line p = line q \<and> character p \<le> character q))"

record Range =
  start :: Position
  endp :: Position

text \<open>The invariant of a range object of the editor.\<close>

definition range_ok :: "Range \<Rightarrow> bool" where
  "range_ok r = isBeforeOrEqual (start r) (endp r)"

text \<open>\<^verbatim>\<open>new Range(startLine, startCharacter, endLine, endCharacter)\<close>\<close>

definition Range_new :: "nat \<Rightarrow> nat \<Rightarrow> nat \<Rightarrow> nat \<Rightarrow> Range" where
  "Range_new sl sc el ec =
     (let s = \<lparr>line = sl, character = sc\<rparr>; e = \<lparr>line = el, character = ec\<rparr>
      in if isBefore s e then \<lparr>start = s, endp = e\<rparr> else \<lparr>start = e, endp = s\<rparr>)"

text \<open>
  A document is its lines (without their terminators), the line terminator it joins them
  with, and its language identifier. An open document has at least one line.
\<close>

record TextDocument =
  lines :: "jsstring list"
  eol :: jsstring
  languageId :: string

definition lineCount :: "TextDocument \<Rightarrow> nat" where
  "lineCount d = length (lines d)"

text \<open>\<^verbatim>\<open>document.lineAt(n)\<close> throws outside \<open>[0, lineCount)\<close>; the result is the line's text,
  whose length is \<^verbatim>\<open>lineAt(n).range.end.character\<close>.\<close>

definition lineAt :: "TextDocument \<Rightarrow> nat \<Rightarrow> jsstring option" where
  "lineAt d n = (if n < lineCount d then Some (lines d ! n) else None)"

definition lineText :: "TextDocument \<Rightarrow> nat \<Rightarrow> jsstring" where
  "lineText d n = (case lineAt d n of Some l \<Rightarrow> l | None \<Rightarrow> [])"

text \<open>\<^verbatim>\<open>document.getText(range)\<close> first brings both ends of the range into the document.\<close>

definition validatePosition :: "TextDocument \<Rightarrow> Position \<Rightarrow> Position" where
  "validatePosition d p =
     (if lineCount d \<le> line p
      then \<lparr>line = lineCount d - 1, character = length (lineText d (lineCount d - 1))\<rparr>
      else \<lparr>line = line p, character = min (character p) (length (lineText d (line p)))\<rparr>)"

definition validateRange :: "TextDocument \<Rightarrow> Range \<Rightarrow> Range" where
  "validateRange d r =
     (let s = validatePosition d (start r); e = validatePosition d (endp r)
      in Range_new (line s) (character s) (line e) (character e))"

definition getText :: "TextDocument \<Rightarrow> Range \<Rightarrow> jsstring" where
  "getText d r =
     (let v = validateRange d r; s = start v; e = endp v
      in if line s = line e
         then take (character e - character s) (drop (character s) (lineText d (line s)))
         else drop (character s) (lineText d (line s))
              @ concat (map (\<lambda>i. eol d @ lineText d i) [line s + 1 ..< line e])
              @ eol d @ take (character e) (lineText d (line e)))"

text \<open>\<^verbatim>\<open>document.getText()\<close>: the lines joined by the line terminator.\<close>

fun join :: "jsstring \<Rightarrow> jsstring list \<Rightarrow> jsstring" where
  "join sep [] = []"
| "join sep [l] = l"
| "join sep (l # ls) = l @ sep @ join sep ls"

definition getFullText :: "TextDocument \<Rightarrow> jsstring" where
  "getFullText d = join (eol d) (lines d)"

section \<open>FocusAreaContextExtractor: the range adjusters\<close>

definition focusAreaCharLimit :: nat where
  "focusAreaCharLimit = 200"

definition getRangeText :: "TextDocument \<Rightarrow> Range \<Rightarrow> jsstring" where
  "getRangeText d r = getText d r"

subsection \<open>trimRangeAccordingToLimits\<close>

definition trim_cond :: "TextDocument \<Rightarrow> Range \<Rightarrow> bool" where
  "trim_cond d r =
     (focusAreaCharLimit < length (getRangeText d r) \<and>
      (line (start r) \<noteq> line (endp r) \<or>
       (line (start r) = line (endp r) \<and> character (start r) \<noteq> character (endp r))))"

function trimRangeAccordingToLimits :: "TextDocument \<Rightarrow> Range \<Rightarrow> js_error + Range" where
  "trimRangeAccordingToLimits d importantRange =
     (if trim_cond d importantRange then
        if line (endp importantRange) = 0 then Inr importantRange
        else case lineAt d (line (endp importantRange) - 1) of
               None \<Rightarrow> Inl IllegalLine
             | Some l \<Rightarrow>
                 trimRangeAccordingToLimits d
                   (Range_new (line (start importantRange)) (character (start importantRange))
                      (line (endp importantRange) - 1) (length l))
      else Inr importantRange)"
  by pat_completeness auto
termination
  by (relation "measure (\<lambda>(d, r). line (start r) + line (endp r))")
     (auto simp: Range_new_def Let_def)

subsection \<open>getExtendedCodeBlockRange\<close>

definition expand_cond :: "TextDocument \<Rightarrow> Range \<Rightarrow> bool" where
  "expand_cond d r =
     (length (getRangeText d r) < focusAreaCharLimit \<and>
      (line (start r) \<noteq> 0 \<or> line (endp r) \<noteq> lineCount d))"

text \<open>The loop of \<^verbatim>\<open>getExtendedCodeBlockRange\<close>, with the flag \<^verbatim>\<open>addLineBefore\<close> as
  an argument; the \<^verbatim>\<open>continue\<close> of the upward branch is the first recursive call.\<close>

function expand_loop :: "TextDocument \<Rightarrow> bool \<Rightarrow> Range \<Rightarrow> js_error + Range" where
  "expand_loop d addLineBefore importantRange =
     (if expand_cond d importantRange then
        if addLineBefore \<and> line (start importantRange) \<noteq> 0 then
          case lineAt d (line (start importantRange) - 1) of
            None \<Rightarrow> Inl IllegalLine
          | Some l \<Rightarrow>
              expand_loop d False
                (Range_new (line (start importantRange) - 1) (length l)
                   (line (endp importantRange)) (character (endp importantRange)))
        else
          case lineAt d (line (endp importantRange) + 1) of
            None \<Rightarrow> Inl IllegalLine
          | Some l \<Rightarrow>
              expand_loop d True
                (Range_new (line (start importantRange)) (character (start importantRange))
                   (line (endp importantRange) + 1) (length l))
      else Inr importantRange)"
  by pat_completeness auto
termination
  by (relation "measures [\<lambda>(d, b, r). if range_ok r then 0 else 1,
                          \<lambda>(d, b, r). line (start r) + (lineCount d - line (endp r))]")
     (auto simp: Range_new_def Let_def range_ok_def isBefore_def isBeforeOrEqual_def lineAt_def
           split: if_splits)

definition getExtendedCodeBlockRange :: "TextDocument \<Rightarrow> Range \<Rightarrow> js_error + Range" where
  "getExtendedCodeBlockRange d importantRange = expand_loop d True importantRange"

text \<open>The number of range objects the loop constructs: one per completed iteration.\<close>

function expand_steps :: "TextDocument \<Rightarrow> bool \<Rightarrow> Range \<Rightarrow> nat" where
  "expand_steps d addLineBefore importantRange =
     (if expand_cond d importantRange then
        if addLineBefore \<and> line (start importantRange) \<noteq> 0 then
          case lineAt d (line (start importantRange) - 1) of
            None \<Rightarrow> 0
          | Some l \<Rightarrow>
              Suc (expand_steps d False
                (Range_new (line (start importantRange) - 1) (length l)
                   (line (endp importantRange)) (character (endp importantRange))))
        else
          case lineAt d (line (endp importantRange) + 1) of
            None \<Rightarrow> 0
          | Some l \<Rightarrow>
              Suc (expand_steps d True
                (Range_new (line (start importantRange)) (character (start importantRange))
                   (line (endp importantRange) + 1) (length l)))
      else 0)"
  by pat_completeness auto
termination
  by (relation "measures [\<lambda>(d, b, r). if range_ok r then 0 else 1,
                          \<lambda>(d, b, r). line (start r) + (lineCount d - line (endp r))]")
     (auto simp: Range_new_def Let_def range_ok_def isBefore_def isBeforeOrEqual_def lineAt_def
           split: if_splits)

subsection \<open>getSelectionInsideExtendedCodeBlock\<close>

text \<open>A selection is a range with a direction; only its start and end are read. A
  position with a negative line is refused by its constructor.\<close>

definition getSelectionInsideExtendedCodeBlock :: "Range \<Rightarrow> Range \<Rightarrow> js_error + Range option" where
  "getSelectionInsideExtendedCodeBlock originSelection extendedCodeBlockRange =
     (if line (start originSelection) = line (endp originSelection) \<and>
         character (start originSelection) = character (endp originSelection)
      then Inr None
      else if line (start originSelection) < line (start extendedCodeBlockRange) \<or>
              line (endp originSelection) < line (start extendedCodeBlockRange)
      then Inl IllegalArgument
      else Inr (Some (Range_new
             (line (start originSelection) - line (start extendedCodeBlockRange))
             (character (start originSelection))
             (line (endp originSelection) - line (start extendedCodeBlockRange))
             (character (endp originSelection)))))"

section \<open>The name finder collaborator\<close>

text \<open>
  Modelled from the spec: the name finder (\<^verbatim>\<open>@aws/fully-qualified-names\<close>) and the type
  \<open>FullyQualifiedName\<close> (\<^verbatim>\<open>./model\<close>) are not part of the sources. The spec gives
  the finder as a function of the text, an extent and the language, returning
  \<^verbatim>\<open>{simple: {usedSymbols, declaredSymbols}, fullyQualified: {usedSymbols}}\<close> or
  \<^verbatim>\<open>undefined\<close>, and a fully-qualified name as a (source, symbol) pair. The program
  reads of \<open>source\<close> and \<open>symbol\<close> only their \<^verbatim>\<open>length\<close> and their JSON text, so
  both are sequences over any element type.
\<close>

record SimpleName =
  symbol :: jsstring

record 'a FullyQualifiedName =
  source :: "'a list"
  symbol :: "'a list"

record 'a FoundNames =
  simple_usedSymbols :: "SimpleName list"
  simple_declaredSymbols :: "SimpleName list"
  fullyQualified_usedSymbols :: "'a FullyQualifiedName list"

text \<open>The values the variable \<^verbatim>\<open>names: any\<close> takes: \<^verbatim>\<open>undefined\<close>, the empty object
  \<^verbatim>\<open>{}\<close> it is initialised with, or what a finder found.\<close>

datatype 'a Names = Undefined | EmptyObject | Found "'a FoundNames"

datatype Language = Java | Tsx | Python | TypeScript

record Extent =
  extent_start :: Position
  extent_end :: Position

text \<open>\<^verbatim>\<open>L.findNamesWithInExtent(fileText, extent)\<close>, awaited: a rejection, \<^verbatim>\<open>undefined\<close>
  or the names.\<close>

type_synonym 'a finder = "Language \<Rightarrow> jsstring \<Rightarrow> Extent \<Rightarrow> js_error + 'a FoundNames option"

section \<open>FocusAreaContextExtractor: names\<close>

subsection \<open>findNamesInRange\<close>

definition isPrivateUse :: "16 word \<Rightarrow> bool" where
  "isPrivateUse c = (0xE000 \<le> c \<and> c \<le> 0xF8FF)"

text \<open>\<^verbatim>\<open>fileText.replace(/([\uE000-\uF8FF]|\uD83C[\uDF00-\uDFFF]|\uD83D[\uDC00-\uDDFF])/g, '')\<close>:
  the pattern has no \<^verbatim>\<open>u\<close> flag, so it is matched code unit by code unit, left to
  right.\<close>

fun replace_pua :: "jsstring \<Rightarrow> jsstring" where
  "replace_pua [] = []"
| "replace_pua [c] = (if isPrivateUse c then [] else [c])"
| "replace_pua (c # c' # cs) =
     (if isPrivateUse c then replace_pua (c' # cs)
      else if (c = 0xD83C \<and> 0xDF00 \<le> c' \<and> c' \<le> 0xDFFF) \<or>
              (c = 0xD83D \<and> 0xDC00 \<le> c' \<and> c' \<le> 0xDDFF)
      then replace_pua cs
      else c # replace_pua (c' # cs))"

definition names_of :: "js_error + 'a FoundNames option \<Rightarrow> js_error + 'a Names" where
  "names_of res = (case res of Inl e \<Rightarrow> Inl e | Inr None \<Rightarrow> Inr Undefined | Inr (Some n) \<Rightarrow> Inr (Found n))"

text \<open>The selection is \<^verbatim>\<open>undefined\<close> (\<open>None\<close>) when it was read from an empty
  \<^verbatim>\<open>visibleRanges\<close>. The value of the \<^verbatim>\<open>replace\<close> call is bound to nothing.\<close>

definition findNamesInRange ::
  "'a finder \<Rightarrow> jsstring \<Rightarrow> Range option \<Rightarrow> string \<Rightarrow> js_error + 'a Names" where
  "findNamesInRange findNamesWithInExtent fileText selection lang =
     (let discarded = replace_pua fileText in
      case selection of
        None \<Rightarrow> Inl TypeError
      | Some sel \<Rightarrow>
          (let extent = \<lparr>extent_start = \<lparr>line = line (start sel), character = character (start sel)\<rparr>,
                         extent_end = \<lparr>line = line (endp sel), character = character (endp sel)\<rparr>\<rparr>
           in if lang = ''java'' then names_of (findNamesWithInExtent Java fileText extent)
              else if lang = ''javascript'' \<or> lang = ''javascriptreact'' \<or> lang = ''typescriptreact''
              then names_of (findNamesWithInExtent Tsx fileText extent)
              else if lang = ''python'' then names_of (findNamesWithInExtent Python fileText extent)
              else if lang = ''typescript'' then names_of (findNamesWithInExtent TypeScript fileText extent)
              else Inr EmptyObject))"

subsection \<open>prepareFqns\<close>

text \<open>
  A JavaScript \<^verbatim>\<open>Map\<close> keeps its entries in the order their keys were first inserted;
  setting a key that is there replaces the value in place. The key
  \<^verbatim>\<open>JSON.stringify([name.source, name.symbol])\<close> is the JSON text of the pair, which is
  different for different pairs, so the pair itself is the key.
\<close>

type_synonym ('k, 'v) js_map = "('k \<times> 'v) list"

definition Map_set :: "('k, 'v) js_map \<Rightarrow> 'k \<times> 'v \<Rightarrow> ('k, 'v) js_map" where
  "Map_set m kv =
     (if fst kv \<in> fst ` set m
      then map (\<lambda>e. if fst e = fst kv then kv else e) m
      else m @ [kv])"

definition Map_new :: "('k \<times> 'v) list \<Rightarrow> ('k, 'v) js_map" where
  "Map_new entries = foldl Map_set [] entries"

definition Map_values :: "('k, 'v) js_map \<Rightarrow> 'v list" where
  "Map_values m = map snd m"

definition maxUsedFullyQualifiedNamesLength :: nat where
  "maxUsedFullyQualifiedNamesLength = 25"

definition fqn_length :: "'a FullyQualifiedName \<Rightarrow> nat" where
  "fqn_length name = length (source name) + length (FullyQualifiedName.symbol name)"

text \<open>\<^verbatim>\<open>Array.prototype.sort\<close> is stable; with the comparator \<^verbatim>\<open>key(a) - key(b)\<close> it is
  the stable sort by that key, \<open>sort_key\<close>.\<close>

definition prepareFqns :: "'a Names \<Rightarrow> js_error + ('a FullyQualifiedName list \<times> bool)" where
  "prepareFqns names =
     (case names of
        Undefined \<Rightarrow> Inr ([], False)
      | EmptyObject \<Rightarrow> Inl TypeError
      | Found n \<Rightarrow>
          (let dedupedUsedFullyQualifiedNames =
                 Map_new (map (\<lambda>name. ((source name, FullyQualifiedName.symbol name),
                                         \<lparr>source = source name, symbol = FullyQualifiedName.symbol name\<rparr>))
                            (fullyQualified_usedSymbols n));
               usedFullyQualifiedNames = Map_values dedupedUsedFullyQualifiedNames
           in if maxUsedFullyQualifiedNamesLength < length usedFullyQualifiedNames
              then Inr (take maxUsedFullyQualifiedNamesLength (sort_key fqn_length usedFullyQualifiedNames), True)
              else Inr (usedFullyQualifiedNames, False)))"

subsection \<open>prepareSimpleNames\<close>

text \<open>\<^verbatim>\<open>String.prototype.trim\<close> removes white space and line terminators at both ends.\<close>

definition isWhiteSpace :: "16 word \<Rightarrow> bool" where
  "isWhiteSpace c =
     (c \<in> set [0x0009, 0x000A, 0x000B, 0x000C, 0x000D, 0x0020, 0x00A0, 0x1680,
               0x2028, 0x2029, 0x202F, 0x205F, 0x3000, 0xFEFF]
      \<or> (0x2000 \<le> c \<and> c \<le> 0x200A))"

definition trim :: "jsstring \<Rightarrow> jsstring" where
  "trim s = rev (dropWhile isWhiteSpace (rev (dropWhile isWhiteSpace s)))"

text \<open>A JavaScript \<^verbatim>\<open>Set\<close> keeps its elements in the order they were first added.\<close>

definition Set_add :: "'a list \<Rightarrow> 'a \<Rightarrow> 'a list" where
  "Set_add s x = (if x \<in> set s then s else s @ [x])"

definition Set_new :: "'a list \<Rightarrow> 'a list" where
  "Set_new xs = foldl Set_add [] xs"

definition maxSimpleNamesLength :: nat where
  "maxSimpleNamesLength = 100"

definition filteredSimpleNames :: "'a FoundNames \<Rightarrow> jsstring list" where
  "filteredSimpleNames n =
     map (\<lambda>elem. trim (SimpleName.symbol elem))
       (filter (\<lambda>elem. let trimmedElem = trim (SimpleName.symbol elem)
                       in length trimmedElem < 129 \<and> 1 < length trimmedElem)
          (simple_usedSymbols n @ simple_declaredSymbols n))"

definition prepareSimpleNames :: "'a Names \<Rightarrow> js_error + (jsstring list \<times> bool)" where
  "prepareSimpleNames names =
     (case names of
        Undefined \<Rightarrow> Inr ([], False)
      | EmptyObject \<Rightarrow> Inl TypeError
      | Found n \<Rightarrow>
          (let simpleNames = filteredSimpleNames n
           in if maxSimpleNamesLength < length simpleNames
              then (let simpleNames = Set_new simpleNames
                    in if maxSimpleNamesLength < length simpleNames
                       then Inr (drop (length simpleNames - maxSimpleNamesLength)
                                   (sort_key length simpleNames), True)
                       else Inr (simpleNames, True))
              else Inr (simpleNames, False)))"

section \<open>FocusAreaContextExtractor: extract\<close>

record TextEditor =
  document :: "TextDocument option"
  selection :: Range
  visibleRanges :: "Range list"

record 'a FocusAreaContext =
  extendedCodeBlock :: jsstring
  codeBlock :: jsstring
  selectionInsideExtendedCodeBlock :: "Range option"
  names_simpleNames :: "jsstring list"
  names_fullyQualifiedNames_used :: "'a FullyQualifiedName list"

text \<open>\<^verbatim>\<open>editor.visibleRanges[0]\<close> is \<^verbatim>\<open>undefined\<close> on an empty array.\<close>

definition first_visible :: "Range list \<Rightarrow> Range option" where
  "first_visible rs = (case rs of [] \<Rightarrow> None | r # _ \<Rightarrow> Some r)"

text \<open>The range \<^verbatim>\<open>extract\<close> starts from: the selection, or the first visible range
  when the selection is only a cursor position.\<close>

definition initialRange :: "TextEditor \<Rightarrow> Range option" where
  "initialRange editor =
     (if line (start (selection editor)) = line (endp (selection editor)) \<and>
         character (start (selection editor)) = character (endp (selection editor))
      then first_visible (visibleRanges editor)
      else Some (selection editor))"

text \<open>\<^verbatim>\<open>extract\<close>. The result is \<open>Inr None\<close> for \<^verbatim>\<open>undefined\<close> (no document), and
  \<open>Inl\<close> when the returned promise is rejected.\<close>

definition extractFocusArea :: "'a finder \<Rightarrow> TextEditor \<Rightarrow> js_error + 'a FocusAreaContext option" where
  "extractFocusArea findNamesWithInExtent editor =
     (case document editor of
        None \<Rightarrow> Inr None
      | Some doc \<Rightarrow>
         (let importantRange = initialRange editor
          in case findNamesInRange findNamesWithInExtent (getFullText doc) importantRange (languageId doc) of
               Inl e \<Rightarrow> Inl e
             | Inr names \<Rightarrow>
            (case prepareSimpleNames names of
               Inl e \<Rightarrow> Inl e
             | Inr (simpleNames, simpleFlag) \<Rightarrow>
            (case prepareFqns names of
               Inl e \<Rightarrow> Inl e
             | Inr (usedFullyQualifiedNames, fqnFlag) \<Rightarrow>
            (case importantRange of
               None \<Rightarrow> Inl TypeError
             | Some range0 \<Rightarrow>
            (case trimRangeAccordingToLimits doc range0 of
               Inl e \<Rightarrow> Inl e
             | Inr importantRange \<Rightarrow>
            (let codeBlock = getRangeText doc importantRange
             in case getExtendedCodeBlockRange doc importantRange of
                  Inl e \<Rightarrow> Inl e
                | Inr extendedCodeBlockRange \<Rightarrow>
                 (let simpleNames =
                        (if length simpleNames = 0 \<and> length usedFullyQualifiedNames = 0
                         then simpleNames @ [codeBlock] else simpleNames)
                  in case getSelectionInsideExtendedCodeBlock (selection editor) extendedCodeBlockRange of
                       Inl e \<Rightarrow> Inl e
                     | Inr sel \<Rightarrow>
                         Inr (Some \<lparr>extendedCodeBlock = getRangeText doc extendedCodeBlockRange,
                                    codeBlock = codeBlock,
                                    selectionInsideExtendedCodeBlock = sel,
                                    names_simpleNames = simpleNames,
                                    names_fullyQualifiedNames_used = usedFullyQualifiedNames\<rparr>)))))))))"

section \<open>Deduplication in first-seen order\<close>

text \<open>What the spec calls deduplication keeping first-seen order: every element stays where
  it first occurs and its later occurrences are dropped.\<close>

fun first_seen_dedup :: "'a list \<Rightarrow> 'a list" where
  "first_seen_dedup [] = []"
| "first_seen_dedup (x # xs) = x # first_seen_dedup (removeAll x xs)"

section \<open>Example inputs\<close>

text \<open>A finder that finds nothing (\<^verbatim>\<open>undefined\<close>) and one that returns the text it was
  given as its only used symbol.\<close>

definition finder_undefined :: "nat finder" where
  "finder_undefined L fileText extent = Inr None"

definition finder_echo :: "nat finder" where
  "finder_echo L fileText extent =
     Inr (Some \<lparr>simple_usedSymbols = [\<lparr>SimpleName.symbol = fileText\<rparr>],
                simple_declaredSymbols = [], fullyQualified_usedSymbols = []\<rparr>)"

text \<open>A one-line document \<^verbatim>\<open>abc\<close>.\<close>

definition doc_abc :: TextDocument where
  "doc_abc = \<lparr>lines = [[0x61, 0x62, 0x63]], eol = [0x0A], languageId = ''typescript''\<rparr>"

text \<open>An empty first line, then a line of 201 characters.\<close>

definition doc_long_line :: TextDocument where
  "doc_long_line = \<lparr>lines = [[], replicate 201 0x78], eol = [0x0A], languageId = ''typescript''\<rparr>"

text \<open>A line of 10 characters, then a line of 199 characters.\<close>

definition doc_two_lines :: TextDocument where
  "doc_two_lines =
     \<lparr>lines = [replicate 10 0x61, replicate 199 0x62], eol = [0x0A], languageId = ''typescript''\<rparr>"

text \<open>Nine lines of 50 characters each.\<close>

definition doc_nine_lines :: TextDocument where
  "doc_nine_lines =
     \<lparr>lines = replicate 9 (replicate 50 0x61), eol = [0x0A], languageId = ''typescript''\<rparr>"

text \<open>Twenty-one lines of 40 characters each.\<close>

definition doc_twenty_one_lines :: TextDocument where
  "doc_twenty_one_lines =
     \<lparr>lines = replicate 21 (replicate 40 0x61), eol = [0x0A], languageId = ''typescript''\<rparr>"

text \<open>One line of 200 characters, in a language no finder is registered for, with the
  whole line selected.\<close>

definition doc_plaintext :: TextDocument where
  "doc_plaintext = \<lparr>lines = [replicate 200 0x61], eol = [0x0A], languageId = ''plaintext''\<rparr>"

definition editor_plaintext :: TextEditor where
  "editor_plaintext =
     \<lparr>document = Some doc_plaintext,
      selection = \<lparr>start = \<lparr>line = 0, character = 0\<rparr>, endp = \<lparr>line = 0, character = 200\<rparr>\<rparr>,
      visibleRanges = [\<lparr>start = \<lparr>line = 0, character = 0\<rparr>, endp = \<lparr>line = 0, character = 200\<rparr>\<rparr>]\<rparr>"

text \<open>Name lists for the curation functions: 26 different fully-qualified names and a
  repetition; three with a repetition; 102 different simple names of lengths 2 to 103,
  some with white space around them; one symbol used and declared; one symbol 101 times.\<close>

definition names_many_fqns :: "nat FoundNames" where
  "names_many_fqns =
     \<lparr>simple_usedSymbols = [], simple_declaredSymbols = [],
      fullyQualified_usedSymbols =
        map (\<lambda>k. \<lparr>source = replicate k 1, symbol = [2]\<rparr>) (rev [0 ..< 26])
        @ [\<lparr>source = replicate 25 1, symbol = [2]\<rparr>]\<rparr>"

definition names_few_fqns :: "nat FoundNames" where
  "names_few_fqns =
     \<lparr>simple_usedSymbols = [], simple_declaredSymbols = [],
      fullyQualified_usedSymbols =
        [\<lparr>source = [1, 1], symbol = [2]\<rparr>, \<lparr>source = [1], symbol = [2]\<rparr>,
         \<lparr>source = [1, 1], symbol = [2]\<rparr>]\<rparr>"

definition names_many_simple :: "nat FoundNames" where
  "names_many_simple =
     \<lparr>simple_usedSymbols = map (\<lambda>k. \<lparr>SimpleName.symbol = replicate k 0x61\<rparr>) [1 ..< 60],
      simple_declaredSymbols = map (\<lambda>k. \<lparr>SimpleName.symbol = 0x20 # replicate k 0x61\<rparr>) [58 ..< 104],
      fullyQualified_usedSymbols = []\<rparr>"

text \<open>One line of 200 characters in a language with a finder, the whole line selected.\<close>

definition doc_java_line :: TextDocument where
  "doc_java_line = \<lparr>lines = [replicate 200 0x61], eol = [0x0A], languageId = ''java''\<rparr>"

definition editor_java_line :: TextEditor where
  "editor_java_line =
     \<lparr>document = Some doc_java_line,
      selection = \<lparr>start = \<lparr>line = 0, character = 0\<rparr>, endp = \<lparr>line = 0, character = 200\<rparr>\<rparr>,
      visibleRanges = [\<lparr>start = \<lparr>line = 0, character = 0\<rparr>, endp = \<lparr>line = 0, character = 200\<rparr>\<rparr>]\<rparr>"

definition names_twice :: "nat FoundNames" where
  "names_twice =
     \<lparr>simple_usedSymbols = [\<lparr>SimpleName.symbol = [0x61, 0x62]\<rparr>],
      simple_declaredSymbols = [\<lparr>SimpleName.symbol = [0x61, 0x62]\<rparr>],
      fullyQualified_usedSymbols = []\<rparr>"

text \<open>A finder that returns the same names whatever it is asked.\<close>

definition finder_const :: "'a FoundNames \<Rightarrow> 'a finder" where
  "finder_const n L fileText extent = Inr (Some n)"

definition names_repeated :: "nat FoundNames" where
  "names_repeated =
     \<lparr>simple_usedSymbols = replicate 101 \<lparr>SimpleName.symbol = [0x61, 0x62]\<rparr>,
      simple_declaredSymbols = [],
      fullyQualified_usedSymbols = []\<rparr>"

section \<open>Properties\<close>

declare trimRangeAccordingToLimits.simps [simp del]
declare expand_loop.simps [simp del]
declare expand_steps.simps [simp del]

subsection \<open>trimRangeAccordingToLimits\<close>

lemma trim_unchanged: "\<not> trim_cond d r \<Longrightarrow> trimRangeAccordingToLimits d r = Inr r"
  by (subst trimRangeAccordingToLimits.simps) simp

lemma trim_within_budget:
  "length (getRangeText d r) \<le> focusAreaCharLimit \<Longrightarrow> trimRangeAccordingToLimits d r = Inr r"
  by (rule trim_unchanged) (simp add: trim_cond_def)

lemma trim_fixed:
  "trimRangeAccordingToLimits d r = Inr r' \<Longrightarrow> trimRangeAccordingToLimits d r' = Inr r'"
proof (induction d r rule: trimRangeAccordingToLimits.induct)
  case (1 d r)
  show ?case
  proof (cases "trim_cond d r")
    case False
    with "1.prems" have "r' = r"
      by (subst (asm) trimRangeAccordingToLimits.simps) simp
    with False show ?thesis
      by (simp add: trim_unchanged)
  next
    case loop: True
    show ?thesis
    proof (cases "line (endp r) = 0")
      case True
      with loop "1.prems" have "r' = r"
        by (subst (asm) trimRangeAccordingToLimits.simps) simp
      with loop True show ?thesis
        by (subst trimRangeAccordingToLimits.simps) simp
    next
      case False
      with loop "1.prems" obtain l where
        l: "lineAt d (line (endp r) - 1) = Some l" and
        rec: "trimRangeAccordingToLimits d
                (Range_new (line (start r)) (character (start r)) (line (endp r) - 1) (length l)) = Inr r'"
        by (subst (asm) trimRangeAccordingToLimits.simps) (auto split: option.splits)
      from "1.IH" [OF loop False l rec] show ?thesis .
    qed
  qed
qed

text \<open>On a range whose lines are lines of the document no line outside the document is
  asked for, so a range is returned.\<close>

lemma Range_new_lines:
  "{line (start (Range_new a b c e)), line (endp (Range_new a b c e))} = {a, c}"
  by (auto simp: Range_new_def Let_def)

lemma trim_returns:
  "line (start r) < lineCount d \<Longrightarrow> line (endp r) < lineCount d \<Longrightarrow>
     \<exists>r'. trimRangeAccordingToLimits d r = Inr r'"
proof (induction d r rule: trimRangeAccordingToLimits.induct)
  case (1 d r)
  show ?case
  proof (cases "trim_cond d r \<and> line (endp r) \<noteq> 0")
    case False
    then show ?thesis
      by (subst trimRangeAccordingToLimits.simps) auto
  next
    case True
    let ?l = "lines d ! (line (endp r) - 1)"
    let ?r = "Range_new (line (start r)) (character (start r)) (line (endp r) - 1) (length ?l)"
    from "1.prems" have l: "lineAt d (line (endp r) - 1) = Some ?l"
      by (simp add: lineAt_def)
    from "1.prems" Range_new_lines [of "line (start r)" "character (start r)" "line (endp r) - 1" "length ?l"]
    have "line (start ?r) < lineCount d" and "line (endp ?r) < lineCount d"
      by (auto simp: doubleton_eq_iff)
    with "1.IH" [of ?l] True l obtain r' where "trimRangeAccordingToLimits d ?r = Inr r'"
      by auto
    with True l show ?thesis
      by (subst trimRangeAccordingToLimits.simps) simp
  qed
qed

text \<open>
  C9. A range whose text is within the budget of 200 characters is returned unchanged by
  \<^verbatim>\<open>trimRangeAccordingToLimits\<close>, and trimming is idempotent: a range whose lines are
  lines of the document is trimmed to a range, and whatever range a call returns, trimming
  that range again returns it unchanged.
\<close>

theorem trim_idempotent:
  "(length (getRangeText d r) \<le> focusAreaCharLimit \<longrightarrow> trimRangeAccordingToLimits d r = Inr r) \<and>
   (line (start r) < lineCount d \<and> line (endp r) < lineCount d \<longrightarrow>
      (\<exists>r'. trimRangeAccordingToLimits d r = Inr r')) \<and>
   (trimRangeAccordingToLimits d r = Inr r' \<longrightarrow> trimRangeAccordingToLimits d r' = Inr r')"
  using trim_within_budget trim_fixed trim_returns by blast

theorem trim_idempotent_witness:
  "length (getRangeText doc_abc (Range_new 0 0 0 3)) \<le> focusAreaCharLimit \<and>
   trimRangeAccordingToLimits doc_abc (Range_new 0 0 0 3) = Inr (Range_new 0 0 0 3) \<and>
   trimRangeAccordingToLimits doc_long_line (Range_new 1 0 1 201) = Inr (Range_new 0 0 1 0) \<and>
   trimRangeAccordingToLimits doc_long_line (Range_new 0 0 1 0) = Inr (Range_new 0 0 1 0)"
proof -
  have a: "length (getRangeText doc_abc (Range_new 0 0 0 3)) \<le> focusAreaCharLimit"
    by code_simp
  have b: "trimRangeAccordingToLimits doc_long_line (Range_new 1 0 1 201) = Inr (Range_new 0 0 1 0)"
    by code_simp
  from a trim_idempotent [of doc_abc "Range_new 0 0 0 3"]
  have "trimRangeAccordingToLimits doc_abc (Range_new 0 0 0 3) = Inr (Range_new 0 0 0 3)"
    by blast
  moreover from b trim_idempotent [of doc_long_line "Range_new 1 0 1 201" "Range_new 0 0 1 0"]
  have "trimRangeAccordingToLimits doc_long_line (Range_new 0 0 1 0) = Inr (Range_new 0 0 1 0)"
    by blast
  ultimately show ?thesis
    using a b by blast
qed

text \<open>
  C3. The claim is that the range returned by \<^verbatim>\<open>trimRangeAccordingToLimits\<close> starts
  where the input range starts. Here the input is the whole second line (201 characters) of
  a two-line document: the loop asks for a range from (1, 0) to the end of line 0, which
  lies before (1, 0), so the range built starts at (0, 0), not at (1, 0).
\<close>

theorem trim_single_long_line_moves_start:
  "trimRangeAccordingToLimits doc_long_line
       \<lparr>start = \<lparr>line = 1, character = 0\<rparr>, endp = \<lparr>line = 1, character = 201\<rparr>\<rparr>
     = Inr \<lparr>start = \<lparr>line = 0, character = 0\<rparr>, endp = \<lparr>line = 1, character = 0\<rparr>\<rparr>"
  by code_simp

subsection \<open>getExtendedCodeBlockRange\<close>

text \<open>
  C1. The claim is that an upward step puts the start at character 0 of the previous
  line. Here the range is the whole second line (199 characters) below a line of 10
  characters: the one upward step puts the start at (0, 10), the end of the previous line,
  and the text of the extended range is the line terminator and the second line, without
  the first line's text.
\<close>

theorem expand_upward_step_starts_at_line_end:
  "getExtendedCodeBlockRange doc_two_lines
       \<lparr>start = \<lparr>line = 1, character = 0\<rparr>, endp = \<lparr>line = 1, character = 199\<rparr>\<rparr>
     = Inr \<lparr>start = \<lparr>line = 0, character = 10\<rparr>, endp = \<lparr>line = 1, character = 199\<rparr>\<rparr> \<and>
   getRangeText doc_two_lines
       \<lparr>start = \<lparr>line = 0, character = 10\<rparr>, endp = \<lparr>line = 1, character = 199\<rparr>\<rparr>
     = 0x0A # replicate 199 0x62"
  by code_simp

text \<open>
  C2. The claim is that the loop never asks for a line outside \<open>[0, lineCount)\<close>. On the
  one-line document \<^verbatim>\<open>abc\<close> with the whole line as the range, the text is shorter than
  the budget and the end line 0 differs from the line count 1, so the loop goes on and
  asks for line 1, which the document refuses.
\<close>

theorem expand_requests_line_past_the_end:
  "getExtendedCodeBlockRange doc_abc
       \<lparr>start = \<lparr>line = 0, character = 0\<rparr>, endp = \<lparr>line = 0, character = 3\<rparr>\<rparr>
     = Inl IllegalLine"
  by code_simp

lemma expand_stop: "\<not> expand_cond d r \<Longrightarrow> expand_loop d b r = Inr r"
  by (subst expand_loop.simps) simp

lemma expand_steps_cond: "expand_steps d b r = Suc k \<Longrightarrow> expand_cond d r"
  by (subst (asm) expand_steps.simps) (simp split: if_splits)

lemma expand_up:
  assumes "expand_cond d r" and "range_ok r" and "line (start r) \<noteq> 0"
    and "line (start r) - 1 < lineCount d"
  shows "\<exists>r'. range_ok r' \<and> line (start r') = line (start r) - 1 \<and>
           line (endp r') = line (endp r) \<and>
           expand_loop d True r = expand_loop d False r' \<and>
           expand_steps d True r = Suc (expand_steps d False r')"
proof -
  let ?l = "lines d ! (line (start r) - 1)"
  let ?r = "\<lparr>start = \<lparr>line = line (start r) - 1, character = length ?l\<rparr>,
             endp = \<lparr>line = line (endp r), character = character (endp r)\<rparr>\<rparr>"
  from assms(2,3) have before:
    "isBefore \<lparr>line = line (start r) - 1, character = length ?l\<rparr>
              \<lparr>line = line (endp r), character = character (endp r)\<rparr>"
    by (auto simp: range_ok_def isBeforeOrEqual_def isBefore_def)
  then have eq: "Range_new (line (start r) - 1) (length ?l) (line (endp r)) (character (endp r)) = ?r"
    by (simp add: Range_new_def)
  have "range_ok ?r"
    using before by (auto simp: range_ok_def isBeforeOrEqual_def isBefore_def)
  moreover have "line (start ?r) = line (start r) - 1" "line (endp ?r) = line (endp r)"
    by simp_all
  moreover have "expand_loop d True r = expand_loop d False ?r"
    unfolding eq [symmetric] using assms(1,3,4)
    by (subst expand_loop.simps) (simp add: lineAt_def)
  moreover have "expand_steps d True r = Suc (expand_steps d False ?r)"
    unfolding eq [symmetric] using assms(1,3,4)
    by (subst expand_steps.simps) (simp add: lineAt_def)
  ultimately show ?thesis by blast
qed

lemma expand_down:
  assumes "expand_cond d r" and "range_ok r" and "line (endp r) + 1 < lineCount d"
  shows "\<exists>r'. range_ok r' \<and> line (start r') = line (start r) \<and>
           line (endp r') = line (endp r) + 1 \<and>
           expand_loop d False r = expand_loop d True r' \<and>
           expand_steps d False r = Suc (expand_steps d True r')"
proof -
  let ?l = "lines d ! (line (endp r) + 1)"
  let ?r = "\<lparr>start = \<lparr>line = line (start r), character = character (start r)\<rparr>,
             endp = \<lparr>line = line (endp r) + 1, character = length ?l\<rparr>\<rparr>"
  from assms(2) have before:
    "isBefore \<lparr>line = line (start r), character = character (start r)\<rparr>
              \<lparr>line = line (endp r) + 1, character = length ?l\<rparr>"
    by (auto simp: range_ok_def isBeforeOrEqual_def isBefore_def)
  then have eq: "Range_new (line (start r)) (character (start r)) (line (endp r) + 1) (length ?l) = ?r"
    by (simp add: Range_new_def)
  have "range_ok ?r"
    using before by (auto simp: range_ok_def isBeforeOrEqual_def isBefore_def)
  moreover have "line (start ?r) = line (start r)" "line (endp ?r) = line (endp r) + 1"
    by simp_all
  moreover have "expand_loop d False r = expand_loop d True ?r"
    unfolding eq [symmetric] using assms(1,3)
    by (subst expand_loop.simps) (simp add: lineAt_def)
  moreover have "expand_steps d False r = Suc (expand_steps d True ?r)"
    unfolding eq [symmetric] using assms(1,3)
    by (subst expand_steps.simps) (simp add: lineAt_def)
  ultimately show ?thesis by blast
qed

text \<open>
  The order of the steps. For a range of the editor whose start line is above 2 and whose
  end line is more than three lines before the last one, if the loop of
  \<^verbatim>\<open>getExtendedCodeBlockRange\<close> completes exactly 4 iterations, then it returns a range
  that starts exactly 2 lines higher and ends exactly 2 lines lower: up, down, up, down.
\<close>

lemma expand_four_iterations_alternate:
  assumes ok: "range_ok r"
    and up: "2 < line (start r)"
    and down: "line (endp r) + 3 < lineCount d"
    and steps: "expand_steps d True r = 4"
  shows "\<exists>r'. getExtendedCodeBlockRange d r = Inr r' \<and>
           line (start r') + 2 = line (start r) \<and> line (endp r') = line (endp r) + 2"
proof -
  from ok have le: "line (start r) \<le> line (endp r)"
    by (auto simp: range_ok_def isBeforeOrEqual_def)
  from steps have c0: "expand_cond d r"
    by (auto intro: expand_steps_cond simp: numeral_eq_Suc)
  from expand_up [OF c0 ok] up down le obtain r1 where r1: "range_ok r1"
    "line (start r1) = line (start r) - 1" "line (endp r1) = line (endp r)"
    "expand_loop d True r = expand_loop d False r1"
    "expand_steps d True r = Suc (expand_steps d False r1)"
    by force
  with steps have s1: "expand_steps d False r1 = 3" by simp
  then have c1: "expand_cond d r1"
    by (auto intro: expand_steps_cond simp: numeral_eq_Suc)
  from expand_down [OF c1 r1(1)] r1 down obtain r2 where r2: "range_ok r2"
    "line (start r2) = line (start r1)" "line (endp r2) = line (endp r1) + 1"
    "expand_loop d False r1 = expand_loop d True r2"
    "expand_steps d False r1 = Suc (expand_steps d True r2)"
    by force
  with s1 have s2: "expand_steps d True r2 = 2" by simp
  then have c2: "expand_cond d r2"
    by (auto intro: expand_steps_cond simp: numeral_eq_Suc)
  from expand_up [OF c2 r2(1)] r1 r2 up down le obtain r3 where r3: "range_ok r3"
    "line (start r3) = line (start r2) - 1" "line (endp r3) = line (endp r2)"
    "expand_loop d True r2 = expand_loop d False r3"
    "expand_steps d True r2 = Suc (expand_steps d False r3)"
    by force
  with s2 have s3: "expand_steps d False r3 = 1" by simp
  then have c3: "expand_cond d r3"
    by (auto intro: expand_steps_cond)
  from expand_down [OF c3 r3(1)] r1 r2 r3 down obtain r4 where r4: "range_ok r4"
    "line (start r4) = line (start r3)" "line (endp r4) = line (endp r3) + 1"
    "expand_loop d False r3 = expand_loop d True r4"
    "expand_steps d False r3 = Suc (expand_steps d True r4)"
    by force
  with s3 have s4: "expand_steps d True r4 = 0" by simp
  have "\<not> expand_cond d r4"
  proof
    assume c4: "expand_cond d r4"
    from expand_up [OF c4 r4(1)] r1 r2 r3 r4 up down le
    obtain r5 where "expand_steps d True r4 = Suc (expand_steps d False r5)"
      by force
    with s4 show False by simp
  qed
  then have "expand_loop d True r4 = Inr r4"
    by (rule expand_stop)
  with r1 r2 r3 r4 have "getExtendedCodeBlockRange d r = Inr r4"
    by (simp add: getExtendedCodeBlockRange_def)
  moreover from r1 r2 r3 r4 up have "line (start r4) + 2 = line (start r)"
    "line (endp r4) = line (endp r) + 2"
    by simp_all
  ultimately show ?thesis by blast
qed

lemma expand_four_iterations_example:
  "range_ok (Range_new 4 0 4 50) \<and> 2 < line (start (Range_new 4 0 4 50)) \<and>
   line (endp (Range_new 4 0 4 50)) + 3 < lineCount doc_nine_lines \<and>
   expand_steps doc_nine_lines True (Range_new 4 0 4 50) = 4 \<and>
   (\<exists>r'. getExtendedCodeBlockRange doc_nine_lines (Range_new 4 0 4 50) = Inr r' \<and>
      line (start r') + 2 = 4 \<and> line (endp r') = 6)"
proof -
  have a: "range_ok (Range_new 4 0 4 50)"
    by code_simp
  have b: "2 < line (start (Range_new 4 0 4 50))"
    by code_simp
  have c: "line (endp (Range_new 4 0 4 50)) + 3 < lineCount doc_nine_lines"
    by code_simp
  have d: "expand_steps doc_nine_lines True (Range_new 4 0 4 50) = 4"
    by code_simp
  have e: "line (start (Range_new 4 0 4 50)) = 4" "line (endp (Range_new 4 0 4 50)) = 4"
    by code_simp+
  from expand_four_iterations_alternate [OF a b c d]
  have "\<exists>r'. getExtendedCodeBlockRange doc_nine_lines (Range_new 4 0 4 50) = Inr r' \<and>
      line (start r') + 2 = 4 \<and> line (endp r') = 6"
    by (simp only: e) simp
  with a b c d show ?thesis
    by (intro conjI)
qed

text \<open>
  C8. The claim is that where the budget is reached after exactly 4 steps of one whole
  line each, the start moves up 2 lines and the end moves down 2 lines. On 21 lines of 40
  characters with line 10 as the range, the whole-line ranges have 40, 81, 122 and 163
  characters, below the budget, and 204 after the fourth line is added. The loop, whose
  upward steps start at the end of the line above, has only 164 characters after its
  fourth iteration, goes up once more and returns a range from (7, 40) to (12, 40): the
  start line moved up 3 lines.
\<close>

theorem expand_four_whole_lines_moves_start_three:
  "length (getRangeText doc_twenty_one_lines
      \<lparr>start = \<lparr>line = 10, character = 0\<rparr>, endp = \<lparr>line = 10, character = 40\<rparr>\<rparr>) = 40 \<and>
   length (getRangeText doc_twenty_one_lines
      \<lparr>start = \<lparr>line = 9, character = 0\<rparr>, endp = \<lparr>line = 10, character = 40\<rparr>\<rparr>) = 81 \<and>
   length (getRangeText doc_twenty_one_lines
      \<lparr>start = \<lparr>line = 9, character = 0\<rparr>, endp = \<lparr>line = 11, character = 40\<rparr>\<rparr>) = 122 \<and>
   length (getRangeText doc_twenty_one_lines
      \<lparr>start = \<lparr>line = 8, character = 0\<rparr>, endp = \<lparr>line = 11, character = 40\<rparr>\<rparr>) = 163 \<and>
   length (getRangeText doc_twenty_one_lines
      \<lparr>start = \<lparr>line = 8, character = 0\<rparr>, endp = \<lparr>line = 12, character = 40\<rparr>\<rparr>) = 204 \<and>
   expand_steps doc_twenty_one_lines True
      \<lparr>start = \<lparr>line = 10, character = 0\<rparr>, endp = \<lparr>line = 10, character = 40\<rparr>\<rparr> = 5 \<and>
   getExtendedCodeBlockRange doc_twenty_one_lines
      \<lparr>start = \<lparr>line = 10, character = 0\<rparr>, endp = \<lparr>line = 10, character = 40\<rparr>\<rparr>
     = Inr \<lparr>start = \<lparr>line = 7, character = 40\<rparr>, endp = \<lparr>line = 12, character = 40\<rparr>\<rparr>"
  by code_simp

subsection \<open>findNamesInRange\<close>

lemma replace_pua_changes_text: "replace_pua [0xE000, 0x61] = [0x61]"
  by (simp add: isPrivateUse_def)

text \<open>
  C10. For each of the six language identifiers a finder is registered for, the finder is
  called with the text \<^verbatim>\<open>findNamesInRange\<close> was given, unchanged, whatever the text,
  the range and the finder are: the text without private-use and emoji characters is
  computed and dropped.
\<close>

theorem findNamesInRange_passes_original_text:
  "findNamesInRange F fileText (Some sel) ''java'' =
     names_of (F Java fileText
       \<lparr>extent_start = \<lparr>line = line (start sel), character = character (start sel)\<rparr>,
        extent_end = \<lparr>line = line (endp sel), character = character (endp sel)\<rparr>\<rparr>) \<and>
   findNamesInRange F fileText (Some sel) ''javascript'' =
     names_of (F Tsx fileText
       \<lparr>extent_start = \<lparr>line = line (start sel), character = character (start sel)\<rparr>,
        extent_end = \<lparr>line = line (endp sel), character = character (endp sel)\<rparr>\<rparr>) \<and>
   findNamesInRange F fileText (Some sel) ''javascriptreact'' =
     names_of (F Tsx fileText
       \<lparr>extent_start = \<lparr>line = line (start sel), character = character (start sel)\<rparr>,
        extent_end = \<lparr>line = line (endp sel), character = character (endp sel)\<rparr>\<rparr>) \<and>
   findNamesInRange F fileText (Some sel) ''typescriptreact'' =
     names_of (F Tsx fileText
       \<lparr>extent_start = \<lparr>line = line (start sel), character = character (start sel)\<rparr>,
        extent_end = \<lparr>line = line (endp sel), character = character (endp sel)\<rparr>\<rparr>) \<and>
   findNamesInRange F fileText (Some sel) ''python'' =
     names_of (F Python fileText
       \<lparr>extent_start = \<lparr>line = line (start sel), character = character (start sel)\<rparr>,
        extent_end = \<lparr>line = line (endp sel), character = character (endp sel)\<rparr>\<rparr>) \<and>
   findNamesInRange F fileText (Some sel) ''typescript'' =
     names_of (F TypeScript fileText
       \<lparr>extent_start = \<lparr>line = line (start sel), character = character (start sel)\<rparr>,
        extent_end = \<lparr>line = line (endp sel), character = character (endp sel)\<rparr>\<rparr>)"
  by (simp add: findNamesInRange_def Let_def)

theorem findNamesInRange_passes_original_text_witness:
  "findNamesInRange finder_echo [0xE000, 0x61] (Some (Range_new 0 0 0 2)) ''java'' =
     Inr (Found \<lparr>simple_usedSymbols = [\<lparr>SimpleName.symbol = [0xE000, 0x61]\<rparr>],
                 simple_declaredSymbols = [], fullyQualified_usedSymbols = []\<rparr>)"
  using findNamesInRange_passes_original_text [of finder_echo "[0xE000, 0x61]" "Range_new 0 0 0 2"]
  by (simp add: finder_echo_def names_of_def)

subsection \<open>Deduplication and stable sorting\<close>

lemma set_first_seen_dedup: "set (first_seen_dedup xs) = set xs"
  by (induction xs rule: first_seen_dedup.induct) auto

lemma distinct_first_seen_dedup: "distinct (first_seen_dedup xs)"
  by (induction xs rule: first_seen_dedup.induct) (auto simp: set_first_seen_dedup)

lemma length_first_seen_dedup: "length (first_seen_dedup xs) = card (set xs)"
  by (metis distinct_card distinct_first_seen_dedup set_first_seen_dedup)

lemma first_seen_dedup_map:
  "inj f \<Longrightarrow> first_seen_dedup (map f xs) = map f (first_seen_dedup xs)"
proof (induction xs rule: first_seen_dedup.induct)
  case 1
  show ?case by simp
next
  case (2 x xs)
  from \<open>inj f\<close> have "removeAll (f x) (map f xs) = map f (removeAll x xs)"
    by (induction xs) (auto dest: injD)
  with 2 show ?case by simp
qed

lemma foldl_Set_add:
  "foldl Set_add acc xs = acc @ first_seen_dedup (filter (\<lambda>x. x \<notin> set acc) xs)"
proof (induction xs arbitrary: acc)
  case Nil
  show ?case by simp
next
  case (Cons x xs)
  show ?case
  proof (cases "x \<in> set acc")
    case True
    with Cons show ?thesis by (simp add: Set_add_def)
  next
    case False
    have "removeAll x (filter (\<lambda>y. y \<notin> set acc) xs) = filter (\<lambda>y. y \<notin> set (acc @ [x])) xs"
      by (induction xs) auto
    with False Cons [of "acc @ [x]"] show ?thesis
      by (simp add: Set_add_def)
  qed
qed

lemma Set_new_first_seen: "Set_new xs = first_seen_dedup xs"
  by (simp add: Set_new_def foldl_Set_add)

lemma foldl_Map_set:
  "foldl Map_set (map (\<lambda>k. (k, g k)) as) (map (\<lambda>k. (k, g k)) ks)
     = map (\<lambda>k. (k, g k)) (foldl Set_add as ks)"
proof (induction ks arbitrary: as)
  case Nil
  show ?case by simp
next
  case (Cons k ks)
  have "Map_set (map (\<lambda>k. (k, g k)) as) (k, g k) = map (\<lambda>k. (k, g k)) (Set_add as k)"
    by (auto simp: Map_set_def Set_add_def image_iff)
  with Cons [of "Set_add as k"] show ?case by simp
qed

lemma Map_new_first_seen:
  "Map_values (Map_new (map (\<lambda>x. (key x, g (key x))) xs)) = map g (first_seen_dedup (map key xs))"
proof -
  have "Map_new (map (\<lambda>k. (k, g k)) (map key xs)) = map (\<lambda>k. (k, g k)) (Set_new (map key xs))"
    using foldl_Map_set [of g "[]" "map key xs"] by (simp add: Map_new_def Set_new_def)
  then show ?thesis
    by (simp add: Map_values_def Set_new_first_seen comp_def)
qed

lemma fqn_values:
  "Map_values (Map_new (map (\<lambda>name. ((source name, FullyQualifiedName.symbol name),
        \<lparr>source = source name, symbol = FullyQualifiedName.symbol name\<rparr>)) xs))
     = first_seen_dedup (xs :: 'a FullyQualifiedName list)"
proof -
  let ?key = "\<lambda>name :: 'a FullyQualifiedName. (source name, FullyQualifiedName.symbol name)"
  let ?g = "\<lambda>p. \<lparr>source = fst p, symbol = snd p\<rparr> :: 'a FullyQualifiedName"
  have "inj ?key"
    by (rule injI) simp
  moreover have "(\<lambda>x :: 'a FullyQualifiedName. ?g (?key x)) = (\<lambda>x. x)"
    by (rule ext) simp
  ultimately have "map ?g (first_seen_dedup (map ?key xs)) = first_seen_dedup xs"
    by (simp add: first_seen_dedup_map comp_def del: FullyQualifiedName.simps)
  with Map_new_first_seen [of ?key ?g xs] show ?thesis
    by simp
qed

text \<open>After a stable sort by a key, no element among the first \<open>n\<close> has a larger key than
  one among the rest.\<close>

lemma sort_key_take_drop_le:
  assumes "x \<in> set (take n (sort_key f xs))" and "y \<in> set (drop n (sort_key f xs))"
  shows "f x \<le> f y"
proof -
  have "sorted (map f (sort_key f xs))" by simp
  then have "sorted (map f (take n (sort_key f xs)) @ map f (drop n (sort_key f xs)))"
    by (simp flip: map_append)
  with assms show ?thesis
    by (auto simp: sorted_append)
qed

lemma set_take_drop_distinct:
  assumes "distinct xs"
  shows "set xs - set (take n xs) = set (drop n xs)" and "set xs - set (drop n xs) = set (take n xs)"
proof -
  have "distinct (take n xs @ drop n xs)" using assms by simp
  then have "set (take n xs) \<inter> set (drop n xs) = {}" by (simp only: distinct_append)
  moreover have "set xs = set (take n xs) \<union> set (drop n xs)"
    by (metis append_take_drop_id set_append)
  ultimately show "set xs - set (take n xs) = set (drop n xs)" 
    and "set xs - set (drop n xs) = set (take n xs)" by auto
qed

subsection \<open>prepareFqns\<close>

lemma prepareFqns_Found:
  "prepareFqns (Found n) =
     (let u = first_seen_dedup (fullyQualified_usedSymbols n)
      in if maxUsedFullyQualifiedNamesLength < length u
         then Inr (take maxUsedFullyQualifiedNamesLength (sort_key fqn_length u), True)
         else Inr (u, False))"
  by (simp add: prepareFqns_def fqn_values Let_def)

text \<open>
  C5. \<^verbatim>\<open>prepareFqns\<close> removes repeated (source, symbol) pairs keeping the first-seen
  order. With at most 25 different pairs it returns them, flag false. With more than 25 it
  returns, flag true, exactly 25 different pairs of the input, none of them longer in
  combined length than any pair left out.
\<close>

theorem prepareFqns_dedup_and_cap:
  "(card (set (fullyQualified_usedSymbols n)) \<le> 25 \<longrightarrow>
      prepareFqns (Found n) = Inr (first_seen_dedup (fullyQualified_usedSymbols n), False)) \<and>
   (25 < card (set (fullyQualified_usedSymbols n)) \<longrightarrow>
      (\<exists>kept. prepareFqns (Found n) = Inr (kept, True) \<and>
         length kept = 25 \<and> distinct kept \<and>
         set kept \<subseteq> set (fullyQualified_usedSymbols n) \<and>
         (\<forall>x \<in> set kept. \<forall>y \<in> set (fullyQualified_usedSymbols n) - set kept.
            fqn_length x \<le> fqn_length y)))"
proof (intro conjI impI)
  assume "card (set (fullyQualified_usedSymbols n)) \<le> 25"
  then show "prepareFqns (Found n) = Inr (first_seen_dedup (fullyQualified_usedSymbols n), False)"
    by (simp add: prepareFqns_Found length_first_seen_dedup maxUsedFullyQualifiedNamesLength_def)
next
  let ?u = "first_seen_dedup (fullyQualified_usedSymbols n)"
  let ?s = "sort_key fqn_length ?u"
  assume many: "25 < card (set (fullyQualified_usedSymbols n))"
  then have res: "prepareFqns (Found n) = Inr (take 25 ?s, True)"
    by (simp add: prepareFqns_Found length_first_seen_dedup maxUsedFullyQualifiedNamesLength_def)
  have d: "distinct ?s"
    by (simp add: distinct_first_seen_dedup)
  have s: "set ?s = set (fullyQualified_usedSymbols n)"
    by (simp add: set_first_seen_dedup)
  have "length (take 25 ?s) = 25"
    using many by (simp add: length_first_seen_dedup)
  moreover have "distinct (take 25 ?s)"
    using d by simp
  moreover have "set (take 25 ?s) \<subseteq> set (fullyQualified_usedSymbols n)"
    using set_take_subset [of 25 ?s] s by simp
  moreover have "\<forall>x \<in> set (take 25 ?s). \<forall>y \<in> set (fullyQualified_usedSymbols n) - set (take 25 ?s).
      fqn_length x \<le> fqn_length y"
    using set_take_drop_distinct(1) [OF d, of 25] s sort_key_take_drop_le [of _ 25 fqn_length ?u]
    by auto
  ultimately show "\<exists>kept. prepareFqns (Found n) = Inr (kept, True) \<and>
         length kept = 25 \<and> distinct kept \<and>
         set kept \<subseteq> set (fullyQualified_usedSymbols n) \<and>
         (\<forall>x \<in> set kept. \<forall>y \<in> set (fullyQualified_usedSymbols n) - set kept.
            fqn_length x \<le> fqn_length y)"
    using res by blast
qed


theorem prepareFqns_dedup_and_cap_witness:
  "card (set (fullyQualified_usedSymbols names_few_fqns)) \<le> 25 \<and>
   prepareFqns (Found names_few_fqns) =
     Inr ([\<lparr>source = [1, 1], symbol = [2]\<rparr>, \<lparr>source = [1], symbol = [2]\<rparr>], False) \<and>
   25 < card (set (fullyQualified_usedSymbols names_many_fqns)) \<and>
   (\<exists>kept. prepareFqns (Found names_many_fqns) = Inr (kept, True) \<and> length kept = 25)"
proof -
  have few: "card (set (fullyQualified_usedSymbols names_few_fqns)) \<le> 25"
    by code_simp
  have many: "25 < card (set (fullyQualified_usedSymbols names_many_fqns))"
    by code_simp
  have dedup: "first_seen_dedup (fullyQualified_usedSymbols names_few_fqns) =
      [\<lparr>source = [1, 1], symbol = [2]\<rparr>, \<lparr>source = [1], symbol = [2]\<rparr>]"
    by code_simp
  from mp [OF conjunct1 [OF prepareFqns_dedup_and_cap [of names_few_fqns]] few]
  have a: "prepareFqns (Found names_few_fqns) =
     Inr ([\<lparr>source = [1, 1], symbol = [2]\<rparr>, \<lparr>source = [1], symbol = [2]\<rparr>], False)"
    by (simp only: dedup)
  from mp [OF conjunct2 [OF prepareFqns_dedup_and_cap [of names_many_fqns]] many]
  obtain kept where "prepareFqns (Found names_many_fqns) = Inr (kept, True)" and "length kept = 25"
    by (elim exE conjE)
  then have "\<exists>kept. prepareFqns (Found names_many_fqns) = Inr (kept, True) \<and> length kept = 25"
    by (intro exI conjI)
  with few many a show ?thesis
    by (intro conjI)
qed

subsection \<open>prepareSimpleNames\<close>

lemma isWhiteSpace_a [simp]: "\<not> isWhiteSpace 0x61" "isWhiteSpace 0x20"
  by (simp_all add: isWhiteSpace_def)

lemma trim_replicate_a [simp]: "trim (replicate k 0x61) = replicate k 0x61"
  by (cases k) (simp_all add: trim_def replicate_append_same)

lemma trim_space_replicate_a [simp]: "trim (0x20 # replicate k 0x61) = replicate k 0x61"
  by (cases k) (simp_all add: trim_def replicate_append_same)

lemma filtered_many_simple:
  "filteredSimpleNames names_many_simple = map (\<lambda>k. replicate k 0x61) ([2 ..< 60] @ [58 ..< 104])"
proof -
  have "filter (\<lambda>k. k < 129 \<and> 1 < k) [1 ..< 60] = [2 ..< 60]"
    by code_simp
  moreover have "filter (\<lambda>k. k < 129 \<and> 1 < k) [58 ..< 104] = [58 ..< 104]"
    by code_simp
  ultimately show ?thesis
    by (simp add: filteredSimpleNames_def names_many_simple_def filter_map comp_def)
qed

lemma set_many_simple:
  "set (filteredSimpleNames names_many_simple) = (\<lambda>k. replicate k (0x61 :: 16 word)) ` {2 ..< 104}"
proof -
  have "{2 ..< 60} \<union> {58 ..< 104} = {2 ..< (104 :: nat)}"
    by (simp add: ivl_disj_un_two_touch set_eq_iff) arith
  then show ?thesis
    by (simp only: filtered_many_simple set_map set_append set_upt)
qed

lemma card_many_simple: "card (set (filteredSimpleNames names_many_simple)) = 102"
proof -
  have "inj_on (\<lambda>k. replicate k (0x61 :: 16 word)) {2 ..< 104}"
    by (rule inj_onI) (metis length_replicate)
  then show ?thesis
    by (simp add: set_many_simple card_image)
qed

lemma prepareSimpleNames_Found:
  "prepareSimpleNames (Found n) =
     (let s = filteredSimpleNames n
      in if maxSimpleNamesLength < length s
         then (let u = first_seen_dedup s
               in if maxSimpleNamesLength < length u
                  then Inr (drop (length u - maxSimpleNamesLength) (sort_key length u), True)
                  else Inr (u, True))
         else Inr (s, False))"
  by (simp add: prepareSimpleNames_def Set_new_first_seen Let_def)

lemma prepareSimpleNames_subset:
  "\<exists>res flag. prepareSimpleNames (Found n) = Inr (res, flag) \<and> set res \<subseteq> set (filteredSimpleNames n)"
  by (auto simp: prepareSimpleNames_Found Let_def set_first_seen_dedup dest: in_set_dropD)

lemma prepareSimpleNames_over_cap:
  assumes many: "100 < card (set (filteredSimpleNames n))"
  shows "\<exists>kept. prepareSimpleNames (Found n) = Inr (kept, True) \<and> length kept = 100 \<and>
           distinct kept \<and> set kept \<subseteq> set (filteredSimpleNames n) \<and>
           (\<forall>x \<in> set kept. \<forall>y \<in> set (filteredSimpleNames n) - set kept. length y \<le> length x)"
proof -
  let ?u = "first_seen_dedup (filteredSimpleNames n)"
  let ?s = "sort_key length ?u"
  let ?m = "length ?u - 100"
  have "card (set (filteredSimpleNames n)) \<le> length (filteredSimpleNames n)"
    by (rule card_length)
  with many have res: "prepareSimpleNames (Found n) = Inr (drop ?m ?s, True)"
    by (simp add: prepareSimpleNames_Found length_first_seen_dedup maxSimpleNamesLength_def Let_def)
  have d: "distinct ?s"
    by (simp add: distinct_first_seen_dedup)
  have s: "set ?s = set (filteredSimpleNames n)"
    by (simp add: set_first_seen_dedup)
  have "length (drop ?m ?s) = 100"
    using many by (simp add: length_first_seen_dedup)
  moreover have "distinct (drop ?m ?s)"
    using d by simp
  moreover have "set (drop ?m ?s) \<subseteq> set (filteredSimpleNames n)"
    using set_drop_subset [of ?m ?s] s by simp
  moreover have "\<forall>x \<in> set (drop ?m ?s). \<forall>y \<in> set (filteredSimpleNames n) - set (drop ?m ?s).
      length y \<le> length x"
    using set_take_drop_distinct(2) [OF d, of ?m] s sort_key_take_drop_le [of _ ?m length ?u]
    by auto
  ultimately show ?thesis
    using res by blast
qed

lemma trim_ab: "trim [0x61, 0x62] = [0x61, 0x62]"
  by (simp add: trim_def isWhiteSpace_def)

lemma first_seen_dedup_replicate: "0 < k \<Longrightarrow> first_seen_dedup (replicate k x) = [x]"
proof -
  have "removeAll x (replicate m x) = []" for m
    by (induction m) simp_all
  then show "0 < k \<Longrightarrow> first_seen_dedup (replicate k x) = [x]"
    by (cases k) simp_all
qed

lemma filtered_repeated: "filteredSimpleNames names_repeated = replicate 101 [0x61, 0x62]"
  by (simp add: filteredSimpleNames_def names_repeated_def trim_ab)

lemma filtered_twice: "filteredSimpleNames names_twice = [[0x61, 0x62], [0x61, 0x62]]"
  by (simp add: filteredSimpleNames_def names_twice_def trim_ab)

text \<open>Strings that pass the filter have at most 127 different lengths, so no 128 of them
  have lengths different from one another.\<close>

lemma distinct_lengths_at_most_127:
  assumes "distinct (map length xs)" and "\<forall>x \<in> set xs. 2 \<le> length x \<and> length x \<le> 128"
  shows "length xs \<le> 127"
proof -
  from assms(2) have "set (map length xs) \<subseteq> {2 .. 128}"
    by auto
  then have "card (set (map length xs)) \<le> card {2 .. 128 :: nat}"
    by (intro card_mono) simp_all
  moreover from assms(1) have "card (set (map length xs)) = length xs"
    using distinct_card [of "map length xs"] by simp
  ultimately show ?thesis
    by simp
qed

text \<open>
  C4. \<^verbatim>\<open>prepareSimpleNames\<close> keeps the entries whose trimmed symbol has 2 to 128
  characters, as their trimmed text, in their order. With at most 100 entries kept it
  returns exactly that list, flag false. With more than 100 entries but at most 100
  different strings it returns them deduplicated in first-seen order, flag true. With
  more than 100 different strings it returns, flag true, the last 100 of the
  deduplicated list sorted by length: exactly 100 different strings, none shorter than any
  string left out. In every case what it returns is among the filtered strings.
\<close>

theorem prepareSimpleNames_filter_and_cap:
  "filteredSimpleNames n =
     map (\<lambda>e. trim (SimpleName.symbol e))
       (filter (\<lambda>e. 2 \<le> length (trim (SimpleName.symbol e)) \<and>
                     length (trim (SimpleName.symbol e)) \<le> 128)
          (simple_usedSymbols n @ simple_declaredSymbols n)) \<and>
   (\<exists>res flag. prepareSimpleNames (Found n) = Inr (res, flag) \<and>
      set res \<subseteq> set (filteredSimpleNames n)) \<and>
   (length (filteredSimpleNames n) \<le> 100 \<longrightarrow>
      prepareSimpleNames (Found n) = Inr (filteredSimpleNames n, False)) \<and>
   (100 < length (filteredSimpleNames n) \<and> card (set (filteredSimpleNames n)) \<le> 100 \<longrightarrow>
      prepareSimpleNames (Found n) = Inr (first_seen_dedup (filteredSimpleNames n), True)) \<and>
   (100 < card (set (filteredSimpleNames n)) \<longrightarrow>
      prepareSimpleNames (Found n) =
        Inr (drop (card (set (filteredSimpleNames n)) - 100)
               (sort_key length (first_seen_dedup (filteredSimpleNames n))), True) \<and>
      (\<exists>kept. prepareSimpleNames (Found n) = Inr (kept, True) \<and> length kept = 100 \<and>
         distinct kept \<and> set kept \<subseteq> set (filteredSimpleNames n) \<and>
         (\<forall>x \<in> set kept. \<forall>y \<in> set (filteredSimpleNames n) - set kept.
            length y \<le> length x)))"
proof (intro conjI impI)
  have "\<And>k :: nat. (k < 129 \<and> Suc 0 < k) = (2 \<le> k \<and> k \<le> 128)"
    by arith
  then show "filteredSimpleNames n =
     map (\<lambda>e. trim (SimpleName.symbol e))
       (filter (\<lambda>e. 2 \<le> length (trim (SimpleName.symbol e)) \<and>
                     length (trim (SimpleName.symbol e)) \<le> 128)
          (simple_usedSymbols n @ simple_declaredSymbols n))"
    by (simp add: filteredSimpleNames_def Let_def)
next
  show "\<exists>res flag. prepareSimpleNames (Found n) = Inr (res, flag) \<and>
      set res \<subseteq> set (filteredSimpleNames n)"
    by (rule prepareSimpleNames_subset)
next
  assume "length (filteredSimpleNames n) \<le> 100"
  then show "prepareSimpleNames (Found n) = Inr (filteredSimpleNames n, False)"
    by (simp add: prepareSimpleNames_Found maxSimpleNamesLength_def Let_def)
next
  assume "100 < length (filteredSimpleNames n) \<and> card (set (filteredSimpleNames n)) \<le> 100"
  then show "prepareSimpleNames (Found n) = Inr (first_seen_dedup (filteredSimpleNames n), True)"
    by (simp add: prepareSimpleNames_Found length_first_seen_dedup maxSimpleNamesLength_def Let_def)
next
  assume many: "100 < card (set (filteredSimpleNames n))"
  have "card (set (filteredSimpleNames n)) \<le> length (filteredSimpleNames n)"
    by (rule card_length)
  with many show "prepareSimpleNames (Found n) =
        Inr (drop (card (set (filteredSimpleNames n)) - 100)
               (sort_key length (first_seen_dedup (filteredSimpleNames n))), True)"
    by (simp add: prepareSimpleNames_Found length_first_seen_dedup maxSimpleNamesLength_def Let_def)
next
  assume "100 < card (set (filteredSimpleNames n))"
  then show "\<exists>kept. prepareSimpleNames (Found n) = Inr (kept, True) \<and> length kept = 100 \<and>
         distinct kept \<and> set kept \<subseteq> set (filteredSimpleNames n) \<and>
         (\<forall>x \<in> set kept. \<forall>y \<in> set (filteredSimpleNames n) - set kept.
            length y \<le> length x)"
    by (rule prepareSimpleNames_over_cap)
qed

theorem prepareSimpleNames_filter_and_cap_witness:
  "length (filteredSimpleNames names_twice) \<le> 100 \<and>
   prepareSimpleNames (Found names_twice) = Inr ([[0x61, 0x62], [0x61, 0x62]], False) \<and>
   100 < length (filteredSimpleNames names_repeated) \<and>
   card (set (filteredSimpleNames names_repeated)) \<le> 100 \<and>
   prepareSimpleNames (Found names_repeated) = Inr ([[0x61, 0x62]], True) \<and>
   100 < card (set (filteredSimpleNames names_many_simple)) \<and>
   (\<exists>kept. prepareSimpleNames (Found names_many_simple) = Inr (kept, True) \<and> length kept = 100)"
proof -
  note twice = prepareSimpleNames_filter_and_cap [of names_twice]
  note repeated = prepareSimpleNames_filter_and_cap [of names_repeated]
  note many_simple = prepareSimpleNames_filter_and_cap [of names_many_simple]
  have few: "length (filteredSimpleNames names_twice) \<le> 100"
    by (simp add: filtered_twice)
  from mp [OF conjunct1 [OF conjunct2 [OF conjunct2 [OF twice]]] few]
  have a: "prepareSimpleNames (Found names_twice) = Inr ([[0x61, 0x62], [0x61, 0x62]], False)"
    by (simp only: filtered_twice)
  have long: "100 < length (filteredSimpleNames names_repeated)"
    and same: "card (set (filteredSimpleNames names_repeated)) \<le> 100"
    by (simp_all add: filtered_repeated)
  from mp [OF conjunct1 [OF conjunct2 [OF conjunct2 [OF conjunct2 [OF repeated]]]] conjI [OF long same]]
  have b: "prepareSimpleNames (Found names_repeated) = Inr ([[0x61, 0x62]], True)"
    by (simp add: filtered_repeated first_seen_dedup_replicate)
  have many: "100 < card (set (filteredSimpleNames names_many_simple))"
    by (simp add: card_many_simple)
  from mp [OF conjunct2 [OF conjunct2 [OF conjunct2 [OF conjunct2 [OF many_simple]]]] many]
  obtain kept where "prepareSimpleNames (Found names_many_simple) = Inr (kept, True)"
    and "length kept = 100"
    by (elim exE conjE)
  then have c: "\<exists>kept. prepareSimpleNames (Found names_many_simple) = Inr (kept, True) \<and> length kept = 100"
    by (intro exI conjI)
  from few a long same b many c show ?thesis
    by (intro conjI)
qed

subsection \<open>extract\<close>

lemma java_line_range:
  "trimRangeAccordingToLimits doc_java_line
      \<lparr>start = \<lparr>line = 0, character = 0\<rparr>, endp = \<lparr>line = 0, character = 200\<rparr>\<rparr>
     = Inr \<lparr>start = \<lparr>line = 0, character = 0\<rparr>, endp = \<lparr>line = 0, character = 200\<rparr>\<rparr>"
  "getExtendedCodeBlockRange doc_java_line
      \<lparr>start = \<lparr>line = 0, character = 0\<rparr>, endp = \<lparr>line = 0, character = 200\<rparr>\<rparr>
     = Inr \<lparr>start = \<lparr>line = 0, character = 0\<rparr>, endp = \<lparr>line = 0, character = 200\<rparr>\<rparr>"
  "getRangeText doc_java_line
      \<lparr>start = \<lparr>line = 0, character = 0\<rparr>, endp = \<lparr>line = 0, character = 200\<rparr>\<rparr>
     = replicate 200 0x61"
  "getSelectionInsideExtendedCodeBlock
      \<lparr>start = \<lparr>line = 0, character = 0\<rparr>, endp = \<lparr>line = 0, character = 200\<rparr>\<rparr>
      \<lparr>start = \<lparr>line = 0, character = 0\<rparr>, endp = \<lparr>line = 0, character = 200\<rparr>\<rparr>
     = Inr (Some \<lparr>start = \<lparr>line = 0, character = 0\<rparr>, endp = \<lparr>line = 0, character = 200\<rparr>\<rparr>)"
  by code_simp+

lemma java_line_names:
  "findNamesInRange (finder_const n) (getFullText doc_java_line) (initialRange editor_java_line)
      (languageId doc_java_line) = Inr (Found n)"
  by (simp add: findNamesInRange_def finder_const_def names_of_def initialRange_def
        editor_java_line_def doc_java_line_def Let_def)

lemma extract_java_line:
  assumes "prepareSimpleNames (Found n) = Inr (res, flag)"
    and "prepareFqns (Found n) = Inr (used, fflag)"
  shows "extractFocusArea (finder_const n) editor_java_line =
      Inr (Some \<lparr>extendedCodeBlock = replicate 200 0x61, codeBlock = replicate 200 0x61,
                 selectionInsideExtendedCodeBlock =
                   Some \<lparr>start = \<lparr>line = 0, character = 0\<rparr>, endp = \<lparr>line = 0, character = 200\<rparr>\<rparr>,
                 names_simpleNames = (if res = [] \<and> used = [] then [replicate 200 0x61] else res),
                 names_fullyQualifiedNames_used = used\<rparr>)"
proof -
  have ed: "document editor_java_line = Some doc_java_line"
    "selection editor_java_line =
       \<lparr>start = \<lparr>line = 0, character = 0\<rparr>, endp = \<lparr>line = 0, character = 200\<rparr>\<rparr>"
    "initialRange editor_java_line =
       Some \<lparr>start = \<lparr>line = 0, character = 0\<rparr>, endp = \<lparr>line = 0, character = 200\<rparr>\<rparr>"
    by (simp_all add: editor_java_line_def initialRange_def)
  show ?thesis
    unfolding extractFocusArea_def
    using java_line_names [of n]
    by (simp add: ed assms java_line_range Let_def)
qed

lemma extract_simpleNames:
  assumes "extractFocusArea F editor = Inr (Some ctx)" and "document editor = Some doc"
    and "findNamesInRange F (getFullText doc) (initialRange editor) (languageId doc) = Inr names"
    and "prepareSimpleNames names = Inr (res, flag)"
  shows "names_simpleNames ctx = res \<or> (\<exists>c. names_simpleNames ctx = [c])"
  using assms
  by (auto simp: extractFocusArea_def Let_def split: option.splits sum.splits prod.splits if_splits)

text \<open>
  C6, as amended. When \<^verbatim>\<open>extract\<close> returns a context and the finder found names whose
  filtered list has more than 100 entries, \<^verbatim>\<open>names.simpleNames\<close> has no duplicates;
  when the filtered list has between 1 and 100 entries, \<^verbatim>\<open>names.simpleNames\<close> is that
  list as it is, duplicates included.
\<close>

theorem extract_simpleNames_distinct_over_cap:
  assumes "extractFocusArea F editor = Inr (Some ctx)" and "document editor = Some doc"
    and "findNamesInRange F (getFullText doc) (initialRange editor) (languageId doc) = Inr (Found n)"
  shows "(maxSimpleNamesLength < length (filteredSimpleNames n) \<longrightarrow>
            distinct (names_simpleNames ctx)) \<and>
         (length (filteredSimpleNames n) \<le> maxSimpleNamesLength \<and> filteredSimpleNames n \<noteq> [] \<longrightarrow>
            names_simpleNames ctx = filteredSimpleNames n)"
proof (intro conjI impI)
  assume over: "maxSimpleNamesLength < length (filteredSimpleNames n)"
  then have "\<exists>res. prepareSimpleNames (Found n) = Inr (res, True) \<and> distinct res"
    by (simp add: prepareSimpleNames_Found Let_def distinct_first_seen_dedup)
  then obtain res where res: "prepareSimpleNames (Found n) = Inr (res, True)" and d: "distinct res"
    by blast
  from extract_simpleNames [OF assms res] d show "distinct (names_simpleNames ctx)"
    by auto
next
  assume "length (filteredSimpleNames n) \<le> maxSimpleNamesLength \<and> filteredSimpleNames n \<noteq> []"
  then have res: "prepareSimpleNames (Found n) = Inr (filteredSimpleNames n, False)"
    and ne: "filteredSimpleNames n \<noteq> []"
    by (simp_all add: prepareSimpleNames_Found Let_def)
  from assms res ne show "names_simpleNames ctx = filteredSimpleNames n"
    by (auto simp: extractFocusArea_def Let_def split: option.splits sum.splits prod.splits if_splits)
qed

text \<open>
  C6, as stated, fails: a symbol that is both used and declared is named twice in
  \<^verbatim>\<open>names.simpleNames\<close>, since the list is only deduplicated when it has more than 100
  entries.
\<close>

theorem extract_simpleNames_duplicates:
  "\<exists>ctx. extractFocusArea (finder_const names_twice) editor_java_line = Inr (Some ctx) \<and>
     names_simpleNames ctx = [[0x61, 0x62], [0x61, 0x62]] \<and>
     \<not> distinct (names_simpleNames ctx)"
proof -
  have simple: "prepareSimpleNames (Found names_twice) = Inr ([[0x61, 0x62], [0x61, 0x62]], False)"
    by (simp add: prepareSimpleNames_Found filtered_twice maxSimpleNamesLength_def)
  have fqns: "prepareFqns (Found names_twice) = Inr ([], False)"
    by (simp add: prepareFqns_Found names_twice_def maxUsedFullyQualifiedNamesLength_def)
  from extract_java_line [OF simple fqns] show ?thesis
    by simp
qed

theorem extract_simpleNames_distinct_over_cap_witness:
  "(\<exists>ctx. extractFocusArea (finder_const names_repeated) editor_java_line = Inr (Some ctx) \<and>
      names_simpleNames ctx = [[0x61, 0x62]] \<and> distinct (names_simpleNames ctx)) \<and>
   document editor_java_line = Some doc_java_line \<and>
   findNamesInRange (finder_const names_repeated) (getFullText doc_java_line)
      (initialRange editor_java_line) (languageId doc_java_line) = Inr (Found names_repeated) \<and>
   maxSimpleNamesLength < length (filteredSimpleNames names_repeated)"
proof -
  let ?ctx = "\<lparr>extendedCodeBlock = replicate 200 0x61, codeBlock = replicate 200 0x61,
                 selectionInsideExtendedCodeBlock =
                   Some \<lparr>start = \<lparr>line = 0, character = 0\<rparr>, endp = \<lparr>line = 0, character = 200\<rparr>\<rparr>,
                 names_simpleNames = [[0x61, 0x62]],
                 names_fullyQualifiedNames_used = ([] :: nat FullyQualifiedName list)\<rparr>"
  have simple: "prepareSimpleNames (Found names_repeated) = Inr ([[0x61, 0x62]], True)"
    by (simp add: prepareSimpleNames_Found filtered_repeated first_seen_dedup_replicate
          maxSimpleNamesLength_def)
  have fqns: "prepareFqns (Found names_repeated) = Inr ([], False)"
    by (simp add: prepareFqns_Found names_repeated_def maxUsedFullyQualifiedNamesLength_def)
  from extract_java_line [OF simple fqns]
  have a: "extractFocusArea (finder_const names_repeated) editor_java_line = Inr (Some ?ctx)"
    by simp
  have b: "document editor_java_line = Some doc_java_line"
    by (simp add: editor_java_line_def)
  note c = java_line_names [of names_repeated]
  have d: "maxSimpleNamesLength < length (filteredSimpleNames names_repeated)"
    by (simp add: filtered_repeated maxSimpleNamesLength_def)
  from mp [OF conjunct1 [OF extract_simpleNames_distinct_over_cap [OF a b c]] d]
  have "distinct (names_simpleNames ?ctx)" .
  with a have "\<exists>ctx. extractFocusArea (finder_const names_repeated) editor_java_line = Inr (Some ctx) \<and>
      names_simpleNames ctx = [[0x61, 0x62]] \<and> distinct (names_simpleNames ctx)"
    by (intro exI [of _ ?ctx] conjI) simp_all
  with b c d show ?thesis
    by (intro conjI)
qed

text \<open>Where the finder of a language returns \<^verbatim>\<open>undefined\<close> and the range adjusters
  return, the code block is the only simple name.\<close>

lemma extract_fallback_when_undefined:
  "extractFocusArea finder_undefined editor_java_line =
      Inr (Some \<lparr>extendedCodeBlock = replicate 200 0x61, codeBlock = replicate 200 0x61,
                 selectionInsideExtendedCodeBlock =
                   Some \<lparr>start = \<lparr>line = 0, character = 0\<rparr>, endp = \<lparr>line = 0, character = 200\<rparr>\<rparr>,
                 names_simpleNames = [replicate 200 0x61],
                 names_fullyQualifiedNames_used = []\<rparr>)"
  by code_simp

text \<open>
  C7. The claim is that a language without a finder ends in the fallback
  \<^verbatim>\<open>simpleNames = [codeBlock]\<close> with no error. For such a language
  \<^verbatim>\<open>findNamesInRange\<close> returns the empty object it started with, not \<^verbatim>\<open>undefined\<close>,
  and \<^verbatim>\<open>prepareSimpleNames\<close> reads \<^verbatim>\<open>names.simple.usedSymbols\<close> of it: a
  \<open>TypeError\<close>, whatever the finder is.
\<close>

theorem extract_unsupported_language_throws:
  "extractFocusArea F editor_plaintext = Inl TypeError"
  by (simp add: extractFocusArea_def initialRange_def editor_plaintext_def doc_plaintext_def
        findNamesInRange_def prepareSimpleNames_def Let_def)

end
